theory Spec2Isabelle
  imports Complex_Main "HOL-Library.AList"
begin

section \<open>Shared data\<close>

text \<open>
  The repository has two drivers of the multi-device flash: the command line tool
  \<^verbatim>\<open>lib/cli/etcher.js\<close> and the IPC worker (the child writer process). Both create one
  \<^verbatim>\<open>ImageWriter\<close> per destination, keep the writers in a JavaScript \<^verbatim>\<open>Map\<close> and react to
  the writers' \<^verbatim>\<open>progress\<close>, \<^verbatim>\<open>error\<close> and \<^verbatim>\<open>finish\<close> events.

  A JavaScript \<^verbatim>\<open>Map\<close> is an association list in insertion order: \<^verbatim>\<open>set\<close> replaces the
  value of a present key in place and appends an absent one (\<^const>\<open>AList.update\<close>),
  \<^verbatim>\<open>delete\<close> removes the key (\<^const>\<open>AList.delete\<close>), \<^verbatim>\<open>size\<close> is the length and
  \<^verbatim>\<open>forEach\<close> visits the entries from the head.
\<close>

type_synonym device = string

text \<open>
  Modelled from the spec: the exit codes of the module \<^verbatim>\<open>lib/shared/exit-codes\<close>, which
  is not among the sources. The spec gives \<^verbatim>\<open>0\<close> for success and names a general-error
  and a validation-error code, which are taken here as \<^verbatim>\<open>1\<close> and \<^verbatim>\<open>2\<close>.
\<close>

definition SUCCESS :: int where
  "SUCCESS = 0"

definition GENERAL_ERROR :: int where
  "GENERAL_ERROR = 1"

definition VALIDATION_ERROR :: int where
  "VALIDATION_ERROR = 2"

text \<open>
  An error object: its message, its optional \<^verbatim>\<open>code\<close> and the optional \<^verbatim>\<open>device\<close> that
  the worker's error handler means to attach.
\<close>

record js_error =
  message :: string
  code :: "string option"
  error_device :: "device option"

text \<open>
  Modelled from the spec: the class \<^verbatim>\<open>ImageWriter\<close> (\<^verbatim>\<open>lib/sdk/writer\<close>), which is not
  among the sources. It is an event emitter that keeps the argument of its constructor
  as \<^verbatim>\<open>options\<close>, so that a listener called with the writer as receiver reads the
  destination as \<^verbatim>\<open>this.options.path\<close>.
\<close>

record writer_options =
  path :: device
  imagePath :: string
  verify :: bool
  unmountOnSuccess :: bool
  checksumAlgorithms :: "string list"

record image_writer =
  options :: writer_options

section \<open>The command line tool\<close>

subsection \<open>Numbers and progress objects\<close>

text \<open>
  The numeric fields of the writers' progress states are finite numbers, modelled as
  reals. The quotient of such a number by a \<^verbatim>\<open>Map\<close> size is a JavaScript number again:
  finite when the size is positive, \<^verbatim>\<open>NaN\<close> for \<^verbatim>\<open>0 / 0\<close> and an infinity otherwise.
\<close>

datatype number = Num real | NaN | PosInfinity | NegInfinity

definition js_div :: "real \<Rightarrow> nat \<Rightarrow> number" where
  "js_div x n =
     (if n \<noteq> 0 then Num (x / real n)
      else if x = 0 then NaN
      else if 0 < x then PosInfinity
      else NegInfinity)"

record 'n progress =
  type :: string
  delta :: 'n
  transferred :: 'n
  percentage :: 'n
  remaining :: 'n
  runtime :: 'n
  speed :: 'n
  eta :: 'n

text \<open>A progress state of one writer: the same fields, and the device it belongs to.\<close>

record flash_state = "real progress" +
  device :: device

text \<open>The payload of a writer's \<^verbatim>\<open>finish\<close> event, of which the tool prints the checksum.\<close>

record flash_info =
  crc32 :: string

text \<open>An entry of \<^verbatim>\<open>results\<close>: \<^verbatim>\<open>{ device, error }\<close> or \<^verbatim>\<open>{ device, flash }\<close>.\<close>

record result =
  result_device :: device
  error :: "js_error option"
  flash :: "flash_info option"

text \<open>
  The state that the handlers close over: \<^verbatim>\<open>results\<close>, \<^verbatim>\<open>writers\<close>, \<^verbatim>\<open>states\<close> and
  \<^verbatim>\<open>progress\<close>; the promise, of which \<open>resolved\<close> says whether it is settled and
  \<open>resolve_calls\<close> counts the calls of \<^verbatim>\<open>resolve\<close>; and the progress objects handed to
  the progress bars, oldest first. The promise is resolved with the array \<^verbatim>\<open>results\<close>
  itself, so its value is the field \<open>results\<close>.
\<close>

record cli_state =
  results :: "result list"
  writers :: "(device \<times> image_writer) list"
  states :: "(device \<times> flash_state) list"
  progress :: "number progress"
  resolved :: bool
  resolve_calls :: nat
  bar_updates :: "number progress list"

subsection \<open>The progress handler\<close>

definition resetProgress :: "'a progress \<Rightarrow> real progress" where
  "resetProgress p =
     \<lparr>type = type p, delta = 0, transferred = 0, percentage = 0, remaining = 0,
      runtime = 0, speed = 0, eta = 0\<rparr>"

text \<open>One round of the \<^verbatim>\<open>forEach\<close> body: count a writing state, add every field.\<close>

definition add_flash :: "nat \<times> real progress \<Rightarrow> flash_state \<Rightarrow> nat \<times> real progress" where
  "add_flash acc st =
     (fst acc + (if type st = ''write'' then 1 else 0),
      (snd acc)\<lparr>delta := delta (snd acc) + delta st,
        transferred := transferred (snd acc) + transferred st,
        percentage := percentage (snd acc) + percentage st,
        remaining := remaining (snd acc) + remaining st,
        runtime := runtime (snd acc) + runtime st,
        speed := speed (snd acc) + speed st,
        eta := eta (snd acc) + eta st\<rparr>)"

fun sum_states :: "(device \<times> flash_state) list \<Rightarrow> nat \<times> real progress \<Rightarrow> nat \<times> real progress" where
  "sum_states [] acc = acc"
| "sum_states (entry # rest) acc = sum_states rest (add_flash acc (snd entry))"

definition average_state :: "nat \<Rightarrow> real progress \<Rightarrow> nat \<Rightarrow> number progress" where
  "average_state writing p len =
     \<lparr>type = (if 0 < writing then ''write'' else ''check''),
      delta = js_div (delta p) len,
      transferred = js_div (transferred p) len,
      percentage = js_div (percentage p) len,
      remaining = js_div (remaining p) len,
      runtime = js_div (runtime p) len,
      speed = js_div (speed p) len,
      eta = js_div (eta p) len\<rparr>"

definition onProgress :: "flash_state \<Rightarrow> cli_state \<Rightarrow> cli_state" where
  "onProgress state s =
     (let states' = AList.update (device state) state (states s);
          len = length states';
          summed = sum_states states' (0, resetProgress (progress s));
          averaged = average_state (fst summed) (snd summed) len
      in s\<lparr>states := states', progress := averaged,
           bar_updates := bar_updates s @ [averaged]\<rparr>)"

subsection \<open>The terminal handlers\<close>

text \<open>
  \<^verbatim>\<open>resolve(results)\<close> settles the promise at its first call and does nothing to it
  afterwards; every call is counted.
\<close>

definition resolve :: "cli_state \<Rightarrow> cli_state" where
  "resolve s = s\<lparr>resolved := True, resolve_calls := Suc (resolve_calls s)\<rparr>"

text \<open>
  \<^verbatim>\<open>onError\<close> and \<^verbatim>\<open>onFinish\<close> are \<^verbatim>\<open>function\<close> expressions, so the event emitter calls
  them with the emitting writer as \<^verbatim>\<open>this\<close>.
\<close>

definition onError :: "image_writer \<Rightarrow> js_error \<Rightarrow> cli_state \<Rightarrow> cli_state" where
  "onError this err s =
     (let s1 = s\<lparr>results := results s @
                 [\<lparr>result_device = path (options this), error = Some err, flash = None\<rparr>]\<rparr>;
          s2 = s1\<lparr>writers := AList.delete (path (options this)) (writers s1)\<rparr>;
          s3 = s2\<lparr>states := AList.delete (path (options this)) (states s2)\<rparr>
      in if length (writers s3) = 0 then resolve s3 else s3)"

definition onFinish :: "image_writer \<Rightarrow> flash_info \<Rightarrow> cli_state \<Rightarrow> cli_state" where
  "onFinish this state s =
     (let s1 = s\<lparr>results := results s @
                 [\<lparr>result_device = path (options this), error = None, flash = Some state\<rparr>]\<rparr>;
          s2 = s1\<lparr>writers := AList.delete (path (options this)) (writers s1)\<rparr>;
          s3 = s2\<lparr>states := AList.delete (path (options this)) (states s2)\<rparr>
      in if length (writers s3) = 0 then resolve s3 else s3)"

subsection \<open>Starting the writers and running them\<close>

text \<open>The command line options the tool reads: the image, \<^verbatim>\<open>check\<close> and \<^verbatim>\<open>unmount\<close>.\<close>

record cli_options =
  image :: string
  check :: bool
  unmount :: bool

text \<open>The answers of the form: the selected drives and the confirmation.\<close>

record answers =
  drive :: "device list"
  yes :: bool

definition new_writer :: "cli_options \<Rightarrow> device \<Rightarrow> image_writer" where
  "new_writer opts d =
     \<lparr>options = \<lparr>path = d, imagePath = image opts, verify = check opts,
        unmountOnSuccess = unmount opts, checksumAlgorithms = [''crc32'']\<rparr>\<rparr>"

text \<open>
  The state once \<^verbatim>\<open>answers.drive.forEach\<close> has created and registered a writer for every
  drive. The writers report from asynchronous input and output, so their events come
  after this loop.
\<close>

definition start :: "cli_options \<Rightarrow> device list \<Rightarrow> cli_state" where
  "start opts drives =
     \<lparr>results = [],
      writers = foldl (\<lambda>ws d. AList.update d (new_writer opts d) ws) [] drives,
      states = [],
      progress = \<lparr>type = ''write'', delta = Num 0, transferred = Num 0, percentage = Num 0,
        remaining = Num 0, runtime = Num 0, speed = Num 0, eta = Num 0\<rparr>,
      resolved = False, resolve_calls = 0, bar_updates = []\<rparr>"

text \<open>An event of a writer; the terminal events carry the writer that emits them.\<close>

datatype event =
  Progress flash_state
| Error image_writer js_error
| Finish image_writer flash_info

fun handle :: "cli_state \<Rightarrow> event \<Rightarrow> cli_state" where
  "handle s (Progress state) = onProgress state s"
| "handle s (Error w err) = onError w err s"
| "handle s (Finish w state) = onFinish w state s"

definition run :: "cli_state \<Rightarrow> event list \<Rightarrow> cli_state" where
  "run s events = foldl handle s events"

subsection \<open>The exit code\<close>

definition TypeError :: "string \<Rightarrow> js_error" where
  "TypeError prop =
     \<lparr>message = ''Cannot read property '' @ [CHR 0x27] @ prop @ [CHR 0x27] @
        '' of undefined'', code = None,
      error_device = None\<rparr>"

text \<open>
  The continuation of the promise walks the results: an entry with an error sets the exit
  code to the general error; of any other entry it prints \<^verbatim>\<open>result.flash.checksum.crc32\<close>,
  which throws when the entry has no \<^verbatim>\<open>flash\<close>.
\<close>

fun print_results :: "result list \<Rightarrow> int \<Rightarrow> js_error + int" where
  "print_results [] exitCode = Inr exitCode"
| "print_results (r # rs) exitCode =
     (case error r of
        Some e \<Rightarrow> print_results rs GENERAL_ERROR
      | None \<Rightarrow>
         (case flash r of
            None \<Rightarrow> Inl (TypeError ''checksum'')
          | Some f \<Rightarrow> print_results rs exitCode))"

text \<open>The \<^verbatim>\<open>catch\<close> handler: the exit code of a rejection.\<close>

definition catch_exit :: "js_error \<Rightarrow> int" where
  "catch_exit e = (if code e = Some ''EVALIDATION'' then VALIDATION_ERROR else GENERAL_ERROR)"

definition then_exit :: "result list \<Rightarrow> int" where
  "then_exit rs = (case print_results rs SUCCESS of Inl e \<Rightarrow> catch_exit e | Inr c \<Rightarrow> c)"

text \<open>
  The whole chain. \<open>elevation_error\<close> and \<open>aborted_error\<close> are the errors that
  \<^verbatim>\<open>errors.createUserError\<close> builds for a missing elevation and a declined confirmation
  (the module \<^verbatim>\<open>errors\<close> is not among the sources). \<open>events\<close> are the writers' events
  delivered before the continuation of the promise runs. The result is the code the
  process exits with, or \<open>None\<close> when the promise stays pending.
\<close>

definition etcher ::
  "js_error \<Rightarrow> js_error \<Rightarrow> cli_options \<Rightarrow> bool \<Rightarrow> answers \<Rightarrow> event list \<Rightarrow> int option" where
  "etcher elevation_error aborted_error opts elevated ans events =
     (if \<not> elevated then Some (catch_exit elevation_error)
      else if \<not> yes ans then Some (catch_exit aborted_error)
      else
        (let s = run (start opts (drive ans)) events
         in if resolved s then Some (then_exit (results s)) else None))"

section \<open>The IPC worker\<close>

subsection \<open>Values and the receiver of the handlers\<close>

text \<open>
  The worker's handlers are arrow functions. An arrow function has no receiver of its
  own: \<^verbatim>\<open>this\<close> inside it is the \<^verbatim>\<open>this\<close> of the enclosing scope, here the module's,
  which is \<^verbatim>\<open>module.exports\<close>, an object the module adds nothing to. Reading a property
  of an object that lacks it gives \<^verbatim>\<open>undefined\<close>; reading a property of \<^verbatim>\<open>undefined\<close>
  throws a \<^verbatim>\<open>TypeError\<close>.
\<close>

datatype js_value = Undefined | Str string | Obj "(string \<times> js_value) list"

fun get_prop :: "js_value \<Rightarrow> string \<Rightarrow> js_error + js_value" where
  "get_prop Undefined k = Inl (TypeError k)"
| "get_prop (Str v) k = Inr Undefined"
| "get_prop (Obj ps) k = Inr (case map_of ps k of None \<Rightarrow> Undefined | Some v \<Rightarrow> v)"

definition module_this :: js_value where
  "module_this = Obj []"

fun as_device :: "js_value \<Rightarrow> device option" where
  "as_device (Str v) = Some v"
| "as_device v = None"

subsection \<open>Messages and state\<close>

text \<open>The \<^verbatim>\<open>write\<close> command of the controller.\<close>

record write_command =
  write_imagePath :: string
  destinations :: "device list"
  write_unmountOnSuccess :: bool
  validateWriteOnSuccess :: bool
  write_checksumAlgorithms :: "string list"

text \<open>
  The payload of a writer's \<^verbatim>\<open>finish\<close> event as the worker reads it: the device is
  \<^verbatim>\<open>result.drive.device\<close>.
\<close>

record flash_result =
  drive_device :: device
  checksum :: flash_info

text \<open>What the worker emits to the IPC server.\<close>

datatype ipc_message =
  Ready
| Log string
| State flash_state
| ErrorMessage js_error
| Done "flash_result list"

text \<open>
  The state of a run: the variables \<^verbatim>\<open>writers\<close>, \<^verbatim>\<open>results\<close> and \<^verbatim>\<open>exitCode\<close> of the
  \<^verbatim>\<open>write\<close> listener, the messages emitted so far, oldest first, and the exit code once
  \<^verbatim>\<open>terminate\<close> has been called.
\<close>

record worker_state =
  ipc_writers :: "(device \<times> image_writer) list"
  ipc_results :: "flash_result list"
  exitCode :: int
  emitted :: "ipc_message list"
  exited :: "int option"

definition emit :: "ipc_message \<Rightarrow> worker_state \<Rightarrow> worker_state" where
  "emit m s = s\<lparr>emitted := emitted s @ [m]\<rparr>"

definition log :: "string \<Rightarrow> worker_state \<Rightarrow> worker_state" where
  "log m s = emit (Log m) s"

text \<open>
  \<^verbatim>\<open>terminate\<close> disconnects and exits at the next tick with \<^verbatim>\<open>code || SUCCESS\<close>; the
  next tick comes before any further event, and the exit of the first call is the one
  that happens.
\<close>

definition terminate :: "int \<Rightarrow> worker_state \<Rightarrow> worker_state" where
  "terminate c s =
     (case exited s of
        None \<Rightarrow> s\<lparr>exited := Some (if c = 0 then SUCCESS else c)\<rparr>
      | Some c' \<Rightarrow> s)"

text \<open>
  Modelled from the spec: \<^verbatim>\<open>errors.toJSON\<close> is not among the sources; it turns the error
  into a plain object of the same fields.
\<close>

definition toJSON :: "js_error \<Rightarrow> js_error" where
  "toJSON e = e"

definition handleError :: "js_error \<Rightarrow> worker_state \<Rightarrow> worker_state" where
  "handleError e s = terminate GENERAL_ERROR (emit (ErrorMessage (toJSON e)) s)"

subsection \<open>The handlers of the writers' events\<close>

text \<open>
  A handler returns the state it leaves and the exception it throws, if any: what it did
  before the throw stays done.
\<close>

definition ipc_onProgress :: "flash_state \<Rightarrow> worker_state \<Rightarrow> js_error option \<times> worker_state" where
  "ipc_onProgress state s = (None, emit (State state) s)"

text \<open>
  \<^verbatim>\<open>onFinish\<close> reads \<^verbatim>\<open>result.drive.device\<close> for its log line before it tests
  \<^verbatim>\<open>result\<close>, so a call without argument throws.
\<close>

definition ipc_onFinish :: "flash_result option \<Rightarrow> worker_state \<Rightarrow> js_error option \<times> worker_state" where
  "ipc_onFinish res s =
     (case res of
        None \<Rightarrow> (Some (TypeError ''drive''), s)
      | Some r \<Rightarrow>
         (let s1 = log (''Finish: '' @ drive_device r) s;
              s2 = s1\<lparr>ipc_results := ipc_results s1 @ [r]\<rparr>;
              s3 = s2\<lparr>ipc_writers := AList.delete (drive_device r) (ipc_writers s2)\<rparr>
          in if length (ipc_writers s3) = 0
             then (None, terminate (exitCode s3) (emit (Done (ipc_results s3)) s3))
             else (None, s3)))"

definition ipc_onError :: "js_error \<Rightarrow> worker_state \<Rightarrow> js_error option \<times> worker_state" where
  "ipc_onError err s =
     (let s1 = log (message err) s;
          s2 = s1\<lparr>exitCode := GENERAL_ERROR\<rparr>
      in case get_prop module_this ''destinationDevice'' of
           Inl e \<Rightarrow> (Some e, s2)
         | Inr d \<Rightarrow>
            (case get_prop d ''device'' of
               Inl e \<Rightarrow> (Some e, s2)
             | Inr v \<Rightarrow>
                ipc_onFinish None
                  (emit (ErrorMessage (err\<lparr>error_device := as_device v\<rparr>)) s2)))"

subsection \<open>A run of the worker\<close>

text \<open>
  Modelled from the spec: the place where a writer emits its events (the class
  \<^verbatim>\<open>ImageWriter\<close> is not among the sources). The writers emit from the asynchronous
  callbacks of the reactor, so an exception that leaves a listener is not caught on its
  way and reaches the process as an \<^verbatim>\<open>uncaughtException\<close>, whose listener is
  \<^verbatim>\<open>handleError\<close>.
\<close>

fun uncaught :: "js_error option \<times> worker_state \<Rightarrow> worker_state" where
  "uncaught (None, s) = s"
| "uncaught (Some e, s) = handleError e s"

text \<open>
  The events of a run: those of the writers, with the emitting writer, the two signals,
  and the error and the disconnection of the IPC server.
\<close>

datatype worker_event =
  WriterProgress image_writer flash_state
| WriterError image_writer js_error
| WriterFinish image_writer flash_result
| SIGINT
| SIGTERM
| ServerError
| ServerDisconnect

text \<open>Once \<^verbatim>\<open>terminate\<close> has been called the process exits before any further event.\<close>

fun dispatch :: "worker_state \<Rightarrow> worker_event \<Rightarrow> worker_state" where
  "dispatch s (WriterProgress w state) = uncaught (ipc_onProgress state s)"
| "dispatch s (WriterError w err) = uncaught (ipc_onError err s)"
| "dispatch s (WriterFinish w r) = uncaught (ipc_onFinish (Some r) s)"
| "dispatch s SIGINT = terminate SUCCESS s"
| "dispatch s SIGTERM = terminate SUCCESS s"
| "dispatch s ServerError = terminate SUCCESS s"
| "dispatch s ServerDisconnect = terminate SUCCESS s"

definition worker_step :: "worker_state \<Rightarrow> worker_event \<Rightarrow> worker_state" where
  "worker_step s ev = (if exited s = None then dispatch s ev else s)"

definition worker_run :: "worker_state \<Rightarrow> worker_event list \<Rightarrow> worker_state" where
  "worker_run s evs = foldl worker_step s evs"

text \<open>The listener of \<^verbatim>\<open>write\<close>: four log lines, then one writer per destination.\<close>

fun join :: "string list \<Rightarrow> string \<Rightarrow> string" where
  "join [] sep = []"
| "join [x] sep = x"
| "join (x # y # ys) sep = x @ sep @ join (y # ys) sep"

definition show_bool :: "bool \<Rightarrow> string" where
  "show_bool b = (if b then ''true'' else ''false'')"

definition ipc_writer :: "write_command \<Rightarrow> device \<Rightarrow> image_writer" where
  "ipc_writer cmd d =
     \<lparr>options = \<lparr>path = d, imagePath = write_imagePath cmd,
        verify = validateWriteOnSuccess cmd,
        unmountOnSuccess = write_unmountOnSuccess cmd,
        checksumAlgorithms = write_checksumAlgorithms cmd\<rparr>\<rparr>"

definition on_write :: "write_command \<Rightarrow> worker_state" where
  "on_write cmd =
     \<lparr>ipc_writers =
        foldl (\<lambda>ws d. AList.update d (ipc_writer cmd d) ws) [] (destinations cmd),
      ipc_results = [],
      exitCode = SUCCESS,
      emitted =
        [Log (''Image: '' @ write_imagePath cmd),
         Log (''Devices: '' @ join (destinations cmd) '', ''),
         Log (''Umount on success: '' @ show_bool (write_unmountOnSuccess cmd)),
         Log (''Validate on success: '' @ show_bool (validateWriteOnSuccess cmd))],
      exited = None\<rparr>"

section \<open>Reference definitions\<close>

text \<open>
  The aggregated snapshot as the specification words it: the combined phase is
  \<^verbatim>\<open>write\<close> when the count of entries in that phase is positive (the source's name of
  the other phase is \<^verbatim>\<open>check\<close>), and every numeric field is the arithmetic mean of the
  field over the entries of the map.
\<close>

definition writingCount :: "(device \<times> flash_state) list \<Rightarrow> nat" where
  "writingCount m = length (filter (\<lambda>entry. type (snd entry) = ''write'') m)"

definition mean :: "(flash_state \<Rightarrow> real) \<Rightarrow> (device \<times> flash_state) list \<Rightarrow> real" where
  "mean field m = sum_list (map (\<lambda>entry. field (snd entry)) m) / real (length m)"

definition reference_snapshot :: "(device \<times> flash_state) list \<Rightarrow> number progress" where
  "reference_snapshot m =
     \<lparr>type = (if 0 < writingCount m then ''write'' else ''check''),
      delta = Num (mean delta m),
      transferred = Num (mean transferred m),
      percentage = Num (mean percentage m),
      remaining = Num (mean remaining m),
      runtime = Num (mean runtime m),
      speed = Num (mean speed m),
      eta = Num (mean eta m)\<rparr>"

text \<open>A number that no division by zero has produced, and a snapshot of such numbers.\<close>

fun is_finite :: "number \<Rightarrow> bool" where
  "is_finite (Num x) = True"
| "is_finite v = False"

definition finite_snapshot :: "number progress \<Rightarrow> bool" where
  "finite_snapshot p \<longleftrightarrow>
     is_finite (delta p) \<and> is_finite (transferred p) \<and> is_finite (percentage p) \<and>
     is_finite (remaining p) \<and> is_finite (runtime p) \<and> is_finite (speed p) \<and>
     is_finite (eta p)"

text \<open>The devices that have an entry in a \<^verbatim>\<open>Map\<close>.\<close>

definition keys :: "(device \<times> 'a) list \<Rightarrow> device set" where
  "keys m = fst ` set m"

text \<open>The device of a terminal event, and the devices of the terminal events of a run.\<close>

fun terminal :: "event \<Rightarrow> device list" where
  "terminal (Progress state) = []"
| "terminal (Error w err) = [path (options w)]"
| "terminal (Finish w state) = [path (options w)]"

definition terminals :: "event list \<Rightarrow> device list" where
  "terminals evs = concat (map terminal evs)"

text \<open>The worker has emitted no \<^verbatim>\<open>done\<close>.\<close>

definition no_done :: "worker_state \<Rightarrow> bool" where
  "no_done s \<longleftrightarrow> (\<forall>rs. Done rs \<notin> set (emitted s))"

section \<open>Example inputs\<close>

text \<open>Two drives, their writers, and the events used to instantiate the theorems.\<close>

definition example_options :: cli_options where
  "example_options = \<lparr>image = ''image.img'', check = True, unmount = True\<rparr>"

definition writer_a :: image_writer where
  "writer_a = new_writer example_options ''/dev/a''"

definition writer_b :: image_writer where
  "writer_b = new_writer example_options ''/dev/b''"

definition state_a :: flash_state where
  "state_a =
     \<lparr>type = ''write'', delta = 4, transferred = 200, percentage = 20, remaining = 800,
      runtime = 2, speed = 100, eta = 8, device = ''/dev/a''\<rparr>"

definition state_b :: flash_state where
  "state_b =
     \<lparr>type = ''check'', delta = 2, transferred = 800, percentage = 80, remaining = 200,
      runtime = 4, speed = 200, eta = 1, device = ''/dev/b''\<rparr>"

definition write_failed :: js_error where
  "write_failed = \<lparr>message = ''write failed'', code = None, error_device = None\<rparr>"

definition info_a :: flash_info where
  "info_a = \<lparr>crc32 = ''AAA''\<rparr>"

definition user_error :: js_error where
  "user_error = \<lparr>message = ''Aborted'', code = None, error_device = None\<rparr>"

definition write_a :: write_command where
  "write_a =
     \<lparr>write_imagePath = ''image.img'', destinations = [''/dev/a''],
      write_unmountOnSuccess = True, validateWriteOnSuccess = True,
      write_checksumAlgorithms = [''crc32'']\<rparr>"

definition write_ab :: write_command where
  "write_ab =
     \<lparr>write_imagePath = ''image.img'', destinations = [''/dev/a'', ''/dev/b''],
      write_unmountOnSuccess = True, validateWriteOnSuccess = True,
      write_checksumAlgorithms = [''crc32'']\<rparr>"

definition result_b :: flash_result where
  "result_b = \<lparr>drive_device = ''/dev/b'', checksum = \<lparr>crc32 = ''BBB''\<rparr>\<rparr>"

section \<open>The aggregation of progress\<close>

lemma sum_states_eq:
  "sum_states m acc =
     (fst acc + writingCount m,
      (snd acc)\<lparr>delta := delta (snd acc) + sum_list (map (\<lambda>entry. delta (snd entry)) m),
        transferred :=
          transferred (snd acc) + sum_list (map (\<lambda>entry. transferred (snd entry)) m),
        percentage :=
          percentage (snd acc) + sum_list (map (\<lambda>entry. percentage (snd entry)) m),
        remaining := remaining (snd acc) + sum_list (map (\<lambda>entry. remaining (snd entry)) m),
        runtime := runtime (snd acc) + sum_list (map (\<lambda>entry. runtime (snd entry)) m),
        speed := speed (snd acc) + sum_list (map (\<lambda>entry. speed (snd entry)) m),
        eta := eta (snd acc) + sum_list (map (\<lambda>entry. eta (snd entry)) m)\<rparr>)"
proof (induction m arbitrary: acc)
  case Nil
  show ?case by (simp add: writingCount_def)
next
  case (Cons entry rest)
  show ?case
    by (simp add: Cons.IH add_flash_def writingCount_def add.assoc)
qed

lemma length_update_pos: "0 < length (AList.update k v m)"
  by (cases m) simp_all

lemma update_not_Nil: "AList.update k v m \<noteq> []"
  using length_update_pos [of k v m] by auto

lemma average_eq_reference:
  assumes "m \<noteq> []"
  shows "average_state (fst (sum_states m (0, resetProgress p)))
           (snd (sum_states m (0, resetProgress p))) (length m) = reference_snapshot m"
  using assms
  by (simp add: sum_states_eq average_state_def reference_snapshot_def resetProgress_def
      js_div_def mean_def)

lemma states_onProgress: "states (onProgress st s) = AList.update (device st) st (states s)"
  by (simp add: onProgress_def Let_def)

lemma progress_onProgress:
  "progress (onProgress st s) = reference_snapshot (states (onProgress st s))"
  by (simp add: onProgress_def Let_def average_eq_reference update_not_Nil)

lemma bar_updates_onProgress:
  "bar_updates (onProgress st s) =
     bar_updates s @ [reference_snapshot (states (onProgress st s))]"
  by (simp add: onProgress_def Let_def average_eq_reference update_not_Nil)

text \<open>
  C5. A progress update stores the state under its device in the map of states
  (replacing the device's older state in place, appending a new device) and changes
  nothing else but \<^verbatim>\<open>progress\<close> and the progress bar: the snapshot it leaves in
  \<^verbatim>\<open>progress\<close> and hands to the progress bar is the reference snapshot of that updated
  map, which is not empty. The phase is \<^verbatim>\<open>write\<close> when the count of writing entries is
  positive and \<^verbatim>\<open>check\<close> (the specification's \<^verbatim>\<open>verify\<close>) otherwise, and each of the
  seven numeric fields is the sum of the field over all entries of the updated map
  divided by their number.
\<close>

theorem onProgress_is_reference_snapshot:
  "AList.update (device st) st (states s) \<noteq> [] \<and>
   onProgress st s =
     s\<lparr>states := AList.update (device st) st (states s),
       progress := reference_snapshot (AList.update (device st) st (states s)),
       bar_updates :=
         bar_updates s @ [reference_snapshot (AList.update (device st) st (states s))]\<rparr>"
  by (simp add: onProgress_def Let_def average_eq_reference update_not_Nil)

theorem onProgress_is_reference_snapshot_witness:
  "states (onProgress state_b (onProgress state_a
      (start example_options [''/dev/a'', ''/dev/b'']))) =
     [(''/dev/a'', state_a), (''/dev/b'', state_b)] \<and>
   progress (onProgress state_b (onProgress state_a
      (start example_options [''/dev/a'', ''/dev/b'']))) =
     \<lparr>type = ''write'', delta = Num 3, transferred = Num 500, percentage = Num 50,
      remaining = Num 500, runtime = Num 3, speed = Num 150, eta = Num (9 / 2)\<rparr> \<and>
   bar_updates (onProgress state_b (onProgress state_a
      (start example_options [''/dev/a'', ''/dev/b'']))) =
     [\<lparr>type = ''write'', delta = Num 4, transferred = Num 200, percentage = Num 20,
       remaining = Num 800, runtime = Num 2, speed = Num 100, eta = Num 8\<rparr>,
      \<lparr>type = ''write'', delta = Num 3, transferred = Num 500, percentage = Num 50,
       remaining = Num 500, runtime = Num 3, speed = Num 150, eta = Num (9 / 2)\<rparr>]"
proof -
  let ?s0 = "start example_options [''/dev/a'', ''/dev/b'']"
  have one: "reference_snapshot [(''/dev/a'', state_a)] =
     \<lparr>type = ''write'', delta = Num 4, transferred = Num 200, percentage = Num 20,
      remaining = Num 800, runtime = Num 2, speed = Num 100, eta = Num 8\<rparr>"
    by (simp add: reference_snapshot_def mean_def writingCount_def state_a_def)
  have two: "reference_snapshot [(''/dev/a'', state_a), (''/dev/b'', state_b)] =
     \<lparr>type = ''write'', delta = Num 3, transferred = Num 500, percentage = Num 50,
      remaining = Num 500, runtime = Num 3, speed = Num 150, eta = Num (9 / 2)\<rparr>"
    by (simp add: reference_snapshot_def mean_def writingCount_def state_a_def state_b_def)
  have s0: "states ?s0 = []" "bar_updates ?s0 = []"
    by (simp_all add: start_def)
  have a: "device state_a = ''/dev/a''"
    by (simp add: state_a_def)
  have b: "device state_b = ''/dev/b''"
    by (simp add: state_b_def)
  have first: "onProgress state_a ?s0 =
      ?s0\<lparr>states := [(''/dev/a'', state_a)],
        progress := reference_snapshot [(''/dev/a'', state_a)],
        bar_updates := [reference_snapshot [(''/dev/a'', state_a)]]\<rparr>"
    using onProgress_is_reference_snapshot [of state_a ?s0] by (simp add: s0 a)
  have "onProgress state_b (onProgress state_a ?s0) =
      (onProgress state_a ?s0)
        \<lparr>states := [(''/dev/a'', state_a), (''/dev/b'', state_b)],
         progress := reference_snapshot [(''/dev/a'', state_a), (''/dev/b'', state_b)],
         bar_updates :=
           [reference_snapshot [(''/dev/a'', state_a)],
            reference_snapshot [(''/dev/a'', state_a), (''/dev/b'', state_b)]]\<rparr>"
    using onProgress_is_reference_snapshot [of state_b "onProgress state_a ?s0"]
    by (simp add: first b)
  then show ?thesis
    by (simp add: one two)
qed

lemma sum_list_between:
  fixes g :: "'a \<Rightarrow> real"
  assumes "\<forall>x\<in>set xs. lo \<le> g x \<and> g x \<le> hi"
  shows "lo * real (length xs) \<le> sum_list (map g xs) \<and>
         sum_list (map g xs) \<le> hi * real (length xs)"
  using assms by (induction xs) (auto simp: algebra_simps)

lemma mean_between:
  assumes "m \<noteq> []" and "\<forall>entry\<in>set m. lo \<le> field (snd entry) \<and> field (snd entry) \<le> hi"
  shows "lo \<le> mean field m \<and> mean field m \<le> hi"
proof -
  have n: "0 < real (length m)" using assms(1) by simp
  have b: "lo * real (length m) \<le> sum_list (map (\<lambda>entry. field (snd entry)) m) \<and>
        sum_list (map (\<lambda>entry. field (snd entry)) m) \<le> hi * real (length m)"
    using sum_list_between [of m lo "\<lambda>entry. field (snd entry)" hi] assms(2) by simp
  show ?thesis
    using n b by (simp add: mean_def pos_le_divide_eq pos_divide_le_eq)
qed

lemma mean_nonneg:
  assumes "\<forall>entry\<in>set m. 0 \<le> field (snd entry)"
  shows "0 \<le> mean field m"
proof -
  have "0 \<le> sum_list (map (\<lambda>entry. field (snd entry)) m)"
    using assms by (intro sum_list_nonneg) auto
  then show ?thesis by (simp add: mean_def)
qed

lemma update_singleton: "length (AList.update k v m) = 1 \<Longrightarrow> AList.update k v m = [(k, v)]"
  by (cases m) (auto split: if_splits)

lemma reference_single:
  "reference_snapshot [(k, v)] =
     \<lparr>type = (if type v = ''write'' then ''write'' else ''check''), delta = Num (delta v),
      transferred = Num (transferred v), percentage = Num (percentage v),
      remaining = Num (remaining v), runtime = Num (runtime v), speed = Num (speed v),
      eta = Num (eta v)\<rparr>"
  by (simp add: reference_snapshot_def mean_def writingCount_def)

text \<open>
  C9. Whenever every progress state in the map (as updated by the handler) has its
  percentage between 0 and 100 and a speed and an eta that are not negative, the
  aggregated percentage is a number between 0 and 100 and the aggregated speed and eta
  are numbers that are not negative. When the map holds a single device, the numeric
  fields of the aggregated snapshot are those of that device's own state. The snapshot
  handed to the progress bar is this aggregated snapshot.
\<close>

theorem aggregate_bounds:
  assumes "\<forall>entry\<in>set (states (onProgress st s)).
             0 \<le> percentage (snd entry) \<and> percentage (snd entry) \<le> 100 \<and>
             0 \<le> speed (snd entry) \<and> 0 \<le> eta (snd entry)"
  shows "(\<exists>p v t. percentage (progress (onProgress st s)) = Num p \<and> 0 \<le> p \<and> p \<le> 100 \<and>
            speed (progress (onProgress st s)) = Num v \<and> 0 \<le> v \<and>
            eta (progress (onProgress st s)) = Num t \<and> 0 \<le> t) \<and>
         (length (states (onProgress st s)) = 1 \<longrightarrow>
            delta (progress (onProgress st s)) = Num (delta st) \<and>
            transferred (progress (onProgress st s)) = Num (transferred st) \<and>
            percentage (progress (onProgress st s)) = Num (percentage st) \<and>
            remaining (progress (onProgress st s)) = Num (remaining st) \<and>
            runtime (progress (onProgress st s)) = Num (runtime st) \<and>
            speed (progress (onProgress st s)) = Num (speed st) \<and>
            eta (progress (onProgress st s)) = Num (eta st)) \<and>
         last (bar_updates (onProgress st s)) = progress (onProgress st s)"
proof -
  let ?m = "states (onProgress st s)"
  have m: "?m = AList.update (device st) st (states s)"
    by (rule states_onProgress)
  have ne: "?m \<noteq> []"
    by (simp add: m update_not_Nil)
  have p: "progress (onProgress st s) = reference_snapshot ?m"
    by (rule progress_onProgress)
  have l: "last (bar_updates (onProgress st s)) = progress (onProgress st s)"
    by (simp add: bar_updates_onProgress p)
  have pc: "0 \<le> mean percentage ?m \<and> mean percentage ?m \<le> 100"
    using mean_between [OF ne, of 0 percentage 100] assms by simp
  have sp: "0 \<le> mean speed ?m"
    using mean_nonneg [of ?m speed] assms by simp
  have et: "0 \<le> mean eta ?m"
    using mean_nonneg [of ?m eta] assms by simp
  have bounds: "\<exists>p v t. percentage (progress (onProgress st s)) = Num p \<and> 0 \<le> p \<and> p \<le> 100 \<and>
            speed (progress (onProgress st s)) = Num v \<and> 0 \<le> v \<and>
            eta (progress (onProgress st s)) = Num t \<and> 0 \<le> t"
    using pc sp et by (simp add: p reference_snapshot_def)
  have single: "length ?m = 1 \<longrightarrow>
            delta (progress (onProgress st s)) = Num (delta st) \<and>
            transferred (progress (onProgress st s)) = Num (transferred st) \<and>
            percentage (progress (onProgress st s)) = Num (percentage st) \<and>
            remaining (progress (onProgress st s)) = Num (remaining st) \<and>
            runtime (progress (onProgress st s)) = Num (runtime st) \<and>
            speed (progress (onProgress st s)) = Num (speed st) \<and>
            eta (progress (onProgress st s)) = Num (eta st)"
  proof
    assume "length ?m = 1"
    then have "?m = [(device st, st)]"
      using update_singleton [of "device st" st "states s"] m by simp
    then show "delta (progress (onProgress st s)) = Num (delta st) \<and>
            transferred (progress (onProgress st s)) = Num (transferred st) \<and>
            percentage (progress (onProgress st s)) = Num (percentage st) \<and>
            remaining (progress (onProgress st s)) = Num (remaining st) \<and>
            runtime (progress (onProgress st s)) = Num (runtime st) \<and>
            speed (progress (onProgress st s)) = Num (speed st) \<and>
            eta (progress (onProgress st s)) = Num (eta st)"
      by (simp add: p reference_single)
  qed
  show ?thesis using bounds single l by blast
qed

lemma states_example: "states (onProgress state_b (onProgress state_a (start example_options [''/dev/a'', ''/dev/b'']))) = [(''/dev/a'', state_a), (''/dev/b'', state_b)]"
  by (simp add: states_onProgress start_def state_a_def state_b_def)

theorem aggregate_bounds_witness:
  "(\<exists>p v t.
      percentage (progress (onProgress state_b
        (onProgress state_a (start example_options [''/dev/a'', ''/dev/b''])))) = Num p \<and>
      0 \<le> p \<and> p \<le> 100 \<and>
      speed (progress (onProgress state_b
        (onProgress state_a (start example_options [''/dev/a'', ''/dev/b''])))) = Num v \<and>
      0 \<le> v \<and>
      eta (progress (onProgress state_b
        (onProgress state_a (start example_options [''/dev/a'', ''/dev/b''])))) = Num t \<and>
      0 \<le> t) \<and>
   percentage (progress (onProgress state_b
     (onProgress state_a (start example_options [''/dev/a'', ''/dev/b''])))) = Num 50 \<and>
   length (states (onProgress state_a (start example_options [''/dev/a'']))) = 1 \<and>
   percentage (progress (onProgress state_a (start example_options [''/dev/a'']))) = Num 20"
proof -
  let ?s = "onProgress state_a (start example_options [''/dev/a'', ''/dev/b''])"
  let ?t = "start example_options [''/dev/a'']"
  have h: "\<forall>entry\<in>set (states (onProgress state_b ?s)).
      0 \<le> percentage (snd entry) \<and> percentage (snd entry) \<le> 100 \<and>
      0 \<le> speed (snd entry) \<and> 0 \<le> eta (snd entry)"
    by (simp add: states_example) (simp add: state_a_def state_b_def)
  have h1: "\<forall>entry\<in>set (states (onProgress state_a ?t)).
      0 \<le> percentage (snd entry) \<and> percentage (snd entry) \<le> 100 \<and>
      0 \<le> speed (snd entry) \<and> 0 \<le> eta (snd entry)"
    by (simp add: states_onProgress start_def) (simp add: state_a_def)
  have l: "length (states (onProgress state_a ?t)) = 1"
    by (simp add: states_onProgress start_def)
  have p: "percentage (progress (onProgress state_b ?s)) = Num 50"
    by (simp add: progress_onProgress states_example reference_snapshot_def mean_def)
       (simp add: state_a_def state_b_def)
  have "percentage (progress (onProgress state_a ?t)) = Num (percentage state_a)"
    using aggregate_bounds [OF h1] l by blast
  then have q: "percentage (progress (onProgress state_a ?t)) = Num 20"
    by (simp add: state_a_def)
  show ?thesis using h l p q aggregate_bounds [OF h] by blast
qed

section \<open>Emission of snapshots\<close>

lemma keys_delete: "keys (AList.delete k m) = keys m - {k}"
  by (auto simp: keys_def AList.delete_eq)

lemma keys_update: "keys (AList.update k v m) = insert k (keys m)"
  by (induction m) (auto simp: keys_def)

lemma delete_absent: "k \<notin> keys m \<Longrightarrow> AList.delete k m = m"
  by (induction m) (auto simp: keys_def)

lemma finite_reference: "finite_snapshot (reference_snapshot m)"
  by (simp add: finite_snapshot_def reference_snapshot_def)

lemma bar_updates_onError: "bar_updates (onError w e s) = bar_updates s"
  by (simp add: onError_def Let_def resolve_def)

lemma bar_updates_onFinish: "bar_updates (onFinish w f s) = bar_updates s"
  by (simp add: onFinish_def Let_def resolve_def)

lemma progress_onError: "progress (onError w e s) = progress s"
  by (simp add: onError_def Let_def resolve_def)

lemma progress_onFinish: "progress (onFinish w f s) = progress s"
  by (simp add: onFinish_def Let_def resolve_def)

lemma run_Nil: "run s [] = s"
  by (simp add: run_def)

lemma run_Cons: "run s (ev # evs) = run (handle s ev) evs"
  by (simp add: run_def)

lemma run_snoc: "run s (evs @ [ev]) = handle (run s evs) ev"
  by (simp add: run_def)

lemma run_append: "run s (xs @ ys) = run (run s xs) ys"
  by (simp add: run_def)

lemma handle_finite:
  assumes "\<forall>u\<in>set (bar_updates s). finite_snapshot u"
  shows "\<forall>u\<in>set (bar_updates (handle s ev)). finite_snapshot u"
  using assms
  by (cases ev) (auto simp: bar_updates_onProgress bar_updates_onError bar_updates_onFinish finite_reference)

lemma run_finite:
  assumes "\<forall>u\<in>set (bar_updates s). finite_snapshot u"
  shows "\<forall>u\<in>set (bar_updates (run s evs)). finite_snapshot u"
  using assms
proof (induction evs arbitrary: s)
  case Nil
  then show ?case by (simp add: run_Nil)
next
  case (Cons ev evs)
  show ?case
    unfolding run_Cons by (rule Cons.IH) (rule handle_finite [OF Cons.prems])
qed

text \<open>
  C8. The progress handler divides by the size of the map after it has stored the
  state, so the divisor is positive and every numeric field of the snapshot is finite.
  The terminal handlers, the only ones that can leave the map empty, neither aggregate
  nor emit: they leave \<^verbatim>\<open>progress\<close> and the progress bars as they were. Hence in every
  run every snapshot that reached a progress bar is finite: no result of a division by
  zero reaches an observer.
\<close>

theorem no_division_by_zero:
  "0 < length (states (onProgress st s)) \<and>
   finite_snapshot (progress (onProgress st s)) \<and>
   bar_updates (onError w e s) = bar_updates s \<and> progress (onError w e s) = progress s \<and>
   bar_updates (onFinish w f s) = bar_updates s \<and> progress (onFinish w f s) = progress s \<and>
   (\<forall>u\<in>set (bar_updates (run (start opts ds) evs)). finite_snapshot u)"
proof -
  have "\<forall>u\<in>set (bar_updates (start opts ds)). finite_snapshot u"
    by (simp add: start_def)
  then have "\<forall>u\<in>set (bar_updates (run (start opts ds) evs)). finite_snapshot u"
    by (rule run_finite)
  then show ?thesis
    by (simp add: states_onProgress length_update_pos progress_onProgress finite_reference
        bar_updates_onError bar_updates_onFinish progress_onError progress_onFinish)
qed

theorem no_division_by_zero_witness:
  "reference_snapshot [(''/dev/a'', state_a)]
     \<in> set (bar_updates (run (start example_options [''/dev/a'']) [Progress state_a, Finish writer_a info_a])) \<and>
   finite_snapshot (reference_snapshot [(''/dev/a'', state_a)])"
proof -
  have "bar_updates (run (start example_options [''/dev/a'']) [Progress state_a, Finish writer_a info_a])
      = [reference_snapshot [(''/dev/a'', state_a)]]"
    by (simp add: run_def bar_updates_onFinish bar_updates_onProgress states_onProgress)
       (simp add: start_def state_a_def)
  then show ?thesis
    using no_division_by_zero [of state_a "start example_options [''/dev/a'']" writer_a write_failed info_a
        example_options "[''/dev/a'']" "[Progress state_a, Finish writer_a info_a]"]
    by simp
qed

lemma states_onError: "states (onError w e s) = AList.delete (path (options w)) (states s)"
  by (simp add: onError_def Let_def resolve_def)

lemma states_onFinish: "states (onFinish w f s) = AList.delete (path (options w)) (states s)"
  by (simp add: onFinish_def Let_def resolve_def)

lemma handle_keeps_out:
  assumes "d \<notin> keys (states s)" and "\<forall>st. ev = Progress st \<longrightarrow> device st \<noteq> d"
  shows "d \<notin> keys (states (handle s ev))"
  using assms
  by (cases ev) (auto simp: states_onProgress states_onError states_onFinish keys_update keys_delete)

lemma run_keeps_out:
  assumes "d \<notin> keys (states s)" and "\<forall>st. Progress st \<in> set evs \<longrightarrow> device st \<noteq> d"
  shows "d \<notin> keys (states (run s evs))"
  using assms
proof (induction evs arbitrary: s)
  case Nil
  then show ?case by (simp add: run_Nil)
next
  case (Cons ev evs)
  have "d \<notin> keys (states (handle s ev))"
    using Cons.prems by (intro handle_keeps_out) auto
  then show ?case
    unfolding run_Cons using Cons.prems by (intro Cons.IH) auto
qed

subsection \<open>Progress after a terminal event\<close>

text \<open>
  C6, as stated, fails: the progress handler stores every state it receives. After
  \<^verbatim>\<open>/dev/a\<close> has finished, a progress event of \<^verbatim>\<open>/dev/a\<close> puts the device back into the
  map, and the snapshot handed to the progress bar is computed from it.
\<close>

theorem late_progress_counterexample:
  "''/dev/a'' \<in> keys (states (run (start example_options [''/dev/a'', ''/dev/b''])
       [Finish writer_a info_a, Progress state_a])) \<and>
   bar_updates (run (start example_options [''/dev/a'', ''/dev/b''])
       [Finish writer_a info_a, Progress state_a]) = [reference_snapshot [(''/dev/a'', state_a)]]"
  by (simp add: run_def states_onProgress bar_updates_onProgress states_onFinish bar_updates_onFinish keys_update)
     (simp add: start_def state_a_def writer_a_def new_writer_def)

text \<open>
  C6, amended. A terminal event removes the device from the map of states, and the
  device stays out of the map through every later run of events among which no progress
  event names it. The handlers do not reject a late progress event; that none comes is
  the writers' order of events.
\<close>

theorem terminated_device_stays_out:
  assumes "\<forall>st. Progress st \<in> set evs \<longrightarrow> device st \<noteq> path (options w)"
  shows "path (options w) \<notin> keys (states (run (onFinish w f s) evs)) \<and>
         path (options w) \<notin> keys (states (run (onError w e s) evs))"
proof -
  have "path (options w) \<notin> keys (states (onFinish w f s))"
    and "path (options w) \<notin> keys (states (onError w e s))"
    by (simp_all add: states_onFinish states_onError keys_delete)
  then show ?thesis
    using assms by (simp add: run_keeps_out)
qed

theorem terminated_device_stays_out_witness:
  "path (options writer_a) = ''/dev/a'' \<and>
   ''/dev/a'' \<notin> keys (states (run (onFinish writer_a info_a
      (onProgress state_a (start example_options [''/dev/a'', ''/dev/b''])))
      [Progress state_b])) \<and>
   keys (states (run (onFinish writer_a info_a
      (onProgress state_a (start example_options [''/dev/a'', ''/dev/b''])))
      [Progress state_b])) = {''/dev/b''}"
proof -
  have h: "\<forall>st. Progress st \<in> set [Progress state_b] \<longrightarrow> device st \<noteq> path (options writer_a)"
    by (simp add: state_b_def writer_a_def new_writer_def)
  have "keys (states (run (onFinish writer_a info_a
      (onProgress state_a (start example_options [''/dev/a'', ''/dev/b''])))
      [Progress state_b])) \<subseteq> {''/dev/a'', ''/dev/b''}"
    by (simp add: run_def states_onProgress states_onFinish keys_update keys_delete)
       (auto simp add: start_def state_a_def state_b_def keys_def)
  moreover have "''/dev/b'' \<in> keys (states (run (onFinish writer_a info_a
      (onProgress state_a (start example_options [''/dev/a'', ''/dev/b''])))
      [Progress state_b]))"
    by (simp add: run_def states_onProgress keys_update state_b_def)
  moreover have "path (options writer_a) = ''/dev/a''"
    by (simp add: writer_a_def new_writer_def)
  ultimately show ?thesis
    using h terminated_device_stays_out [OF h, of info_a
        "onProgress state_a (start example_options [''/dev/a'', ''/dev/b''])" write_failed]
    by auto
qed

section \<open>The exit code of the command line tool\<close>

lemma print_results_exit:
  assumes "\<forall>r\<in>set rs. error r \<noteq> None \<or> flash r \<noteq> None"
  shows "print_results rs c = Inr (if \<exists>r\<in>set rs. error r \<noteq> None then GENERAL_ERROR else c)"
  using assms
  by (induction rs arbitrary: c) (auto split: option.splits)

lemma results_onError:
  "results (onError w e s) =
     results s @ [\<lparr>result_device = path (options w), error = Some e, flash = None\<rparr>]"
  by (simp add: onError_def Let_def resolve_def)

lemma results_onFinish:
  "results (onFinish w f s) =
     results s @ [\<lparr>result_device = path (options w), error = None, flash = Some f\<rparr>]"
  by (simp add: onFinish_def Let_def resolve_def)

lemma results_onProgress: "results (onProgress st s) = results s"
  by (simp add: onProgress_def Let_def)

lemma handle_complete:
  assumes "\<forall>r\<in>set (results s). error r \<noteq> None \<or> flash r \<noteq> None"
  shows "\<forall>r\<in>set (results (handle s ev)). error r \<noteq> None \<or> flash r \<noteq> None"
  using assms by (cases ev) (auto simp: results_onError results_onFinish results_onProgress)

lemma run_complete:
  assumes "\<forall>r\<in>set (results s). error r \<noteq> None \<or> flash r \<noteq> None"
  shows "\<forall>r\<in>set (results (run s evs)). error r \<noteq> None \<or> flash r \<noteq> None"
  using assms
proof (induction evs arbitrary: s)
  case Nil
  then show ?case by (simp add: run_Nil)
next
  case (Cons ev evs)
  show ?case
    unfolding run_Cons by (rule Cons.IH) (rule handle_complete [OF Cons.prems])
qed

lemma then_exit_run:
  "then_exit (results (run (start opts ds) evs)) =
     (if \<exists>r\<in>set (results (run (start opts ds) evs)). error r \<noteq> None
      then GENERAL_ERROR else SUCCESS)"
proof -
  have "\<forall>r\<in>set (results (start opts ds)). error r \<noteq> None \<or> flash r \<noteq> None"
    by (simp add: start_def)
  then have "\<forall>r\<in>set (results (run (start opts ds) evs)). error r \<noteq> None \<or> flash r \<noteq> None"
    by (rule run_complete)
  then show ?thesis
    by (simp add: then_exit_def print_results_exit)
qed

text \<open>
  C10, as stated, fails: with the single drive \<^verbatim>\<open>/dev/a\<close>, whose writer reports an
  error, the promise resolves and the process exits with the general-error code, not
  with 0.
\<close>

theorem failed_device_exit_counterexample:
  "etcher user_error user_error example_options True \<lparr>drive = [''/dev/a''], yes = True\<rparr>
     [Error writer_a write_failed] = Some 1 \<and>
   resolved (run (start example_options [''/dev/a'']) [Error writer_a write_failed])"
  by (simp add: etcher_def run_def onError_def Let_def resolve_def start_def writer_a_def
      new_writer_def then_exit_def GENERAL_ERROR_def)

text \<open>
  C10, amended. When the promise resolves, the exit code is the general-error code as
  soon as one entry of the results carries an error, and the success code 0 when none
  does. A rejection (a missing elevation, a declined confirmation) exits with the
  validation-error code when the error's \<^verbatim>\<open>code\<close> is \<^verbatim>\<open>EVALIDATION\<close> and with the
  general-error code otherwise. While the promise is pending there is no exit.
\<close>

theorem exit_code_mapping:
  "etcher elevation_error aborted_error opts elevated ans evs =
     (if \<not> elevated then
        Some (if code elevation_error = Some ''EVALIDATION'' then VALIDATION_ERROR
              else GENERAL_ERROR)
      else if \<not> yes ans then
        Some (if code aborted_error = Some ''EVALIDATION'' then VALIDATION_ERROR
              else GENERAL_ERROR)
      else if resolved (run (start opts (drive ans)) evs) then
        Some (if \<exists>r\<in>set (results (run (start opts (drive ans)) evs)). error r \<noteq> None
              then GENERAL_ERROR else SUCCESS)
      else None)"
  by (simp add: etcher_def Let_def catch_exit_def then_exit_run)

section \<open>Resolution in the command line tool\<close>

lemma delete_Nil: "AList.delete k m = [] \<longleftrightarrow> keys m \<subseteq> {k}"
proof -
  have "AList.delete k m = [] \<longleftrightarrow> keys (AList.delete k m) = {}"
    by (simp add: keys_def)
  also have "\<dots> \<longleftrightarrow> keys m \<subseteq> {k}"
    by (simp add: keys_delete)
  finally show ?thesis .
qed

lemma keys_foldl_update:
  "keys (foldl (\<lambda>ws d. AList.update d (f d) ws) m ds) = keys m \<union> set ds"
  by (induction ds arbitrary: m) (auto simp: keys_update)

lemma writers_start: "keys (writers (start opts ds)) = set ds"
  by (simp add: start_def keys_foldl_update) (simp add: keys_def)

text \<open>What a terminal handler does to the writers, the results and the promise.\<close>

lemma writers_onProgress: "writers (onProgress st s) = writers s"
  by (simp add: onProgress_def Let_def)

lemma resolved_onProgress:
  "resolved (onProgress st s) = resolved s \<and> resolve_calls (onProgress st s) = resolve_calls s"
  by (simp add: onProgress_def Let_def)

lemma writers_onError: "writers (onError w e s) = AList.delete (path (options w)) (writers s)"
  by (simp add: onError_def Let_def resolve_def)

lemma writers_onFinish: "writers (onFinish w f s) = AList.delete (path (options w)) (writers s)"
  by (simp add: onFinish_def Let_def resolve_def)

lemma resolved_onError:
  "resolved (onError w e s) = (resolved s \<or> keys (writers s) \<subseteq> {path (options w)}) \<and>
   resolve_calls (onError w e s) =
     (if keys (writers s) \<subseteq> {path (options w)} then Suc (resolve_calls s)
      else resolve_calls s)"
  by (simp add: onError_def Let_def resolve_def delete_Nil)

lemma resolved_onFinish:
  "resolved (onFinish w f s) = (resolved s \<or> keys (writers s) \<subseteq> {path (options w)}) \<and>
   resolve_calls (onFinish w f s) =
     (if keys (writers s) \<subseteq> {path (options w)} then Suc (resolve_calls s)
      else resolve_calls s)"
  by (simp add: onFinish_def Let_def resolve_def delete_Nil)

lemma handle_terminal:
  assumes "terminal ev = [d]"
  shows "keys (writers (handle s ev)) = keys (writers s) - {d} \<and>
         map result_device (results (handle s ev)) = map result_device (results s) @ [d] \<and>
         resolved (handle s ev) = (resolved s \<or> keys (writers s) \<subseteq> {d}) \<and>
         resolve_calls (handle s ev) =
           (if keys (writers s) \<subseteq> {d} then Suc (resolve_calls s) else resolve_calls s)"
proof (cases ev)
  case (Progress st)
  then show ?thesis using assms by simp
next
  case (Error w e)
  then have d: "d = path (options w)" using assms by simp
  show ?thesis
    unfolding Error d handle.simps
    by (simp only: writers_onError results_onError resolved_onError keys_delete) simp
next
  case (Finish w f)
  then have d: "d = path (options w)" using assms by simp
  show ?thesis
    unfolding Finish d handle.simps
    by (simp only: writers_onFinish results_onFinish resolved_onFinish keys_delete) simp
qed

lemma handle_progress:
  assumes "terminal ev = []"
  shows "writers (handle s ev) = writers s \<and> results (handle s ev) = results s \<and>
         resolved (handle s ev) = resolved s \<and>
         resolve_calls (handle s ev) = resolve_calls s"
  using assms
  by (cases ev) (simp_all add: writers_onProgress results_onProgress resolved_onProgress)

lemma terminal_cases: "terminal ev = [] \<or> (\<exists>d. terminal ev = [d])"
  by (cases ev) simp_all

lemma cli_run_invariant:
  assumes "distinct (terminals evs)" and "set (terminals evs) \<subseteq> set ds" and "ds \<noteq> []"
  shows "keys (writers (run (start opts ds) evs)) = set ds - set (terminals evs) \<and>
         map result_device (results (run (start opts ds) evs)) = terminals evs \<and>
         resolved (run (start opts ds) evs) = (set (terminals evs) = set ds) \<and>
         resolve_calls (run (start opts ds) evs) =
           (if set (terminals evs) = set ds then 1 else 0)"
  using assms(1,2)
proof (induction evs rule: rev_induct)
  case Nil
  have "set ds \<noteq> {}" using assms(3) by simp
  then have "{} \<noteq> set ds" by blast
  moreover have "results (start opts ds) = []" "\<not> resolved (start opts ds)"
    "resolve_calls (start opts ds) = 0"
    by (simp_all add: start_def)
  ultimately show ?case
    by (simp add: run_Nil writers_start terminals_def)
next
  case (snoc ev evs)
  let ?s = "run (start opts ds) evs"
  have t: "terminals (evs @ [ev]) = terminals evs @ terminal ev"
    by (simp add: terminals_def)
  have d: "distinct (terminals evs)" and sub: "set (terminals evs) \<subseteq> set ds"
    using snoc.prems by (simp_all add: t)
  note IH = snoc.IH [OF d sub]
  consider "terminal ev = []" | d where "terminal ev = [d]"
    using terminal_cases by blast
  then show ?case
  proof cases
    case 1
    then show ?thesis
      using IH by (simp add: run_snoc t handle_progress)
  next
    case 2
    have new: "d \<notin> set (terminals evs)" and mem: "d \<in> set ds"
      using snoc.prems 2 by (simp_all add: t)
    have ne: "set (terminals evs) \<noteq> set ds"
      using new mem by auto
    have e: "(set ds - set (terminals evs) \<subseteq> {d}) =
          (insert d (set (terminals evs)) = set ds)"
      using sub mem by auto
    have k: "set ds - set (terminals evs) - {d} = set ds - insert d (set (terminals evs))"
      by auto
    have w: "keys (writers (handle ?s ev)) = set ds - set (terminals (evs @ [ev]))"
      using IH by (simp add: handle_terminal [OF 2] t 2 k)
    have r: "map result_device (results (handle ?s ev)) = terminals (evs @ [ev])"
      using IH by (simp add: handle_terminal [OF 2] t 2)
    have res: "resolved (handle ?s ev) = (set (terminals (evs @ [ev])) = set ds)"
      using IH ne by (simp add: handle_terminal [OF 2] t 2 e)
    have c: "resolve_calls (handle ?s ev) =
          (if set (terminals (evs @ [ev])) = set ds then 1 else 0)"
      using IH ne by (simp add: handle_terminal [OF 2] t 2 e)
    show ?thesis
      unfolding run_snoc using w r res c by blast
  qed
qed

lemma cli_error_isolated:
  "results (onError w e s) =
     results s @ [\<lparr>result_device = path (options w), error = Some e, flash = None\<rparr>] \<and>
   keys (writers (onError w e s)) = keys (writers s) - {path (options w)} \<and>
   (d \<noteq> path (options w) \<longrightarrow>
      map_of (writers (onError w e s)) d = map_of (writers s) d \<and>
      map_of (states (onError w e s)) d = map_of (states s) d)"
  by (simp add: results_onError writers_onError states_onError keys_delete AList.delete_conv')

section \<open>The error handler of the worker\<close>

lemma onError_throws:
  "ipc_onError err s =
     (Some (TypeError ''device''), s\<lparr>exitCode := GENERAL_ERROR, emitted := emitted s @ [Log (message err)]\<rparr>)"
  by (simp add: ipc_onError_def Let_def module_this_def log_def emit_def)

lemma dispatch_error:
  assumes "exited s = None"
  shows "worker_step s (WriterError w err) =
     s\<lparr>exitCode := GENERAL_ERROR,
       emitted := emitted s @ [Log (message err), ErrorMessage (toJSON (TypeError ''device''))],
       exited := Some GENERAL_ERROR\<rparr>"
  using assms
  by (simp add: worker_step_def onError_throws handleError_def terminate_def emit_def GENERAL_ERROR_def)

lemma worker_run_Nil: "worker_run s [] = s"
  by (simp add: worker_run_def)

lemma worker_run_Cons: "worker_run s (ev # evs) = worker_run (worker_step s ev) evs"
  by (simp add: worker_run_def)

lemma worker_run_append: "worker_run s (xs @ ys) = worker_run (worker_run s xs) ys"
  by (simp add: worker_run_def)

lemma worker_step_exited: "exited s = Some c \<Longrightarrow> worker_step s ev = s"
  by (simp add: worker_step_def)

lemma worker_run_exited:
  assumes "exited s \<noteq> None"
  shows "worker_run s evs = s"
proof -
  obtain c where c: "exited s = Some c"
    using assms by auto
  show ?thesis
    by (induction evs) (simp_all add: worker_run_Nil worker_run_Cons worker_step_exited [OF c])
qed

lemma terminate_emitted: "emitted (terminate c s) = emitted s"
  by (simp add: terminate_def split: option.splits)

lemma terminate_exited: "exited (terminate c s) \<noteq> None"
  by (simp add: terminate_def split: option.splits)

lemma step_no_done:
  assumes "no_done s" and "exited (worker_step s ev) = None"
  shows "no_done (worker_step s ev)"
proof (cases "exited s = None")
  case False
  then obtain c where "exited s = Some c"
    by auto
  then show ?thesis
    using assms(1) by (simp add: worker_step_exited)
next
  case True
  show ?thesis
  proof (cases ev)
    case (WriterProgress w st)
    then show ?thesis
      using assms True by (simp add: worker_step_def ipc_onProgress_def emit_def no_done_def)
  next
    case (WriterError w err)
    then show ?thesis
      using assms True by (simp add: dispatch_error)
  next
    case (WriterFinish w r)
    then show ?thesis
      using assms True
      by (auto simp: worker_step_def ipc_onFinish_def Let_def log_def emit_def no_done_def
          terminate_def split: if_splits)
  qed (use assms True in \<open>simp_all add: worker_step_def terminate_def\<close>)
qed

lemma run_no_done:
  assumes "no_done s" and "exited (worker_run s evs) = None"
  shows "no_done (worker_run s evs)"
  using assms
proof (induction evs arbitrary: s)
  case Nil
  then show ?case by (simp add: worker_run_Nil)
next
  case (Cons ev evs)
  have live: "exited (worker_step s ev) = None"
  proof (rule ccontr)
    assume "exited (worker_step s ev) \<noteq> None"
    then show False
      using Cons.prems(2) by (simp add: worker_run_Cons worker_run_exited)
  qed
  show ?case
    unfolding worker_run_Cons
    using Cons.prems(2) by (intro Cons.IH step_no_done [OF Cons.prems(1) live]) (simp add: worker_run_Cons)
qed

lemma on_write_no_done: "no_done (on_write cmd)"
  by (simp add: on_write_def no_done_def)

text \<open>
  C3. In every state that a run of the worker reaches without having terminated, the
  handler of a writer's \<^verbatim>\<open>error\<close> event, whichever writer emits it, throws the
  \<^verbatim>\<open>TypeError\<close> of reading \<^verbatim>\<open>device\<close> of \<^verbatim>\<open>undefined\<close> after it has logged the message and
  set the exit code: it emits no \<^verbatim>\<open>error\<close> with the device attached, records no result and
  removes no writer. \<^verbatim>\<open>handleError\<close> then emits the \<^verbatim>\<open>TypeError\<close> as an \<^verbatim>\<open>error\<close> and
  terminates the worker with the general-error code, whatever events would follow, and
  the run has emitted no \<^verbatim>\<open>done\<close>.
\<close>

theorem error_handler_faults:
  assumes "exited (worker_run (on_write cmd) pre) = None"
  shows "ipc_onError err (worker_run (on_write cmd) pre) =
           (Some (TypeError ''device''),
            (worker_run (on_write cmd) pre)
              \<lparr>exitCode := GENERAL_ERROR,
               emitted := emitted (worker_run (on_write cmd) pre) @ [Log (message err)]\<rparr>) \<and>
         worker_run (on_write cmd) (pre @ WriterError w err # post) =
           (worker_run (on_write cmd) pre)
             \<lparr>exitCode := GENERAL_ERROR,
              emitted := emitted (worker_run (on_write cmd) pre) @
                [Log (message err), ErrorMessage (toJSON (TypeError ''device''))],
              exited := Some GENERAL_ERROR\<rparr> \<and>
         (\<forall>rs. Done rs \<notin> set (emitted (worker_run (on_write cmd) (pre @ WriterError w err # post))))"
proof -
  let ?s = "worker_run (on_write cmd) pre"
  let ?t = "?s\<lparr>exitCode := GENERAL_ERROR,
              emitted := emitted ?s @
                [Log (message err), ErrorMessage (toJSON (TypeError ''device''))],
              exited := Some GENERAL_ERROR\<rparr>"
  have nd: "no_done ?s"
    using on_write_no_done assms by (rule run_no_done)
  have "worker_run (on_write cmd) (pre @ WriterError w err # post) = worker_run ?t post"
    by (simp add: worker_run_append worker_run_Cons dispatch_error [OF assms])
  also have "\<dots> = ?t"
    by (rule worker_run_exited) simp
  finally have r: "worker_run (on_write cmd) (pre @ WriterError w err # post) = ?t" .
  have "\<forall>rs. Done rs \<notin> set (emitted ?t)"
    using nd by (simp add: no_done_def)
  then show ?thesis
    unfolding r by (simp add: onError_throws)
qed

lemma on_write_ab:
  "on_write write_ab =
     \<lparr>ipc_writers = [(''/dev/a'', ipc_writer write_ab ''/dev/a''), (''/dev/b'', ipc_writer write_ab ''/dev/b'')],
      ipc_results = [], exitCode = 0,
      emitted = [Log ''Image: image.img'', Log ''Devices: /dev/a, /dev/b'',
        Log ''Umount on success: true'', Log ''Validate on success: true''],
      exited = None\<rparr>"
  by (simp add: on_write_def write_ab_def show_bool_def SUCCESS_def)

lemma on_write_a:
  "on_write write_a =
     \<lparr>ipc_writers = [(''/dev/a'', ipc_writer write_a ''/dev/a'')],
      ipc_results = [], exitCode = 0,
      emitted = [Log ''Image: image.img'', Log ''Devices: /dev/a'',
        Log ''Umount on success: true'', Log ''Validate on success: true''],
      exited = None\<rparr>"
  by (simp add: on_write_def write_a_def show_bool_def SUCCESS_def)

theorem error_handler_faults_witness:
  "exited (worker_run (on_write write_ab) [WriterProgress writer_a state_a]) = None \<and>
   worker_run (on_write write_ab)
     ([WriterProgress writer_a state_a] @ WriterError writer_a write_failed #
      [WriterFinish writer_b result_b]) =
     \<lparr>ipc_writers = [(''/dev/a'', ipc_writer write_ab ''/dev/a''), (''/dev/b'', ipc_writer write_ab ''/dev/b'')],
      ipc_results = [], exitCode = 1,
      emitted = [Log ''Image: image.img'', Log ''Devices: /dev/a, /dev/b'',
        Log ''Umount on success: true'', Log ''Validate on success: true'',
        State state_a, Log ''write failed'', ErrorMessage (TypeError ''device'')],
      exited = Some 1\<rparr>"
proof -
  have pre: "worker_run (on_write write_ab) [WriterProgress writer_a state_a] =
     \<lparr>ipc_writers = [(''/dev/a'', ipc_writer write_ab ''/dev/a''), (''/dev/b'', ipc_writer write_ab ''/dev/b'')],
      ipc_results = [], exitCode = 0,
      emitted = [Log ''Image: image.img'', Log ''Devices: /dev/a, /dev/b'',
        Log ''Umount on success: true'', Log ''Validate on success: true'', State state_a],
      exited = None\<rparr>"
    by (simp add: on_write_ab worker_run_def worker_step_def ipc_onProgress_def emit_def)
  have h: "exited (worker_run (on_write write_ab) [WriterProgress writer_a state_a]) = None"
    by (simp add: pre)
  show ?thesis
    using h error_handler_faults [OF h, of write_failed writer_a "[WriterFinish writer_b result_b]"]
    by (simp add: pre toJSON_def GENERAL_ERROR_def write_failed_def)
qed

subsection \<open>The worker against the orchestration contract\<close>

text \<open>
  C1 evaluated on the worker: with the single destination \<^verbatim>\<open>/dev/a\<close>, whose writer emits
  \<^verbatim>\<open>error\<close>, the worker ends with no result recorded, the writer still in the map and no
  \<^verbatim>\<open>done\<close> emitted, whatever follows: the orchestration never resolves.
\<close>

theorem worker_error_never_done:
  "worker_run (on_write write_a) (WriterError writer_a write_failed # later) =
     \<lparr>ipc_writers = [(''/dev/a'', ipc_writer write_a ''/dev/a'')],
      ipc_results = [], exitCode = 1,
      emitted = [Log ''Image: image.img'', Log ''Devices: /dev/a'',
        Log ''Umount on success: true'', Log ''Validate on success: true'',
        Log ''write failed'', ErrorMessage (TypeError ''device'')],
      exited = Some 1\<rparr>"
proof -
  have "worker_step (on_write write_a) (WriterError writer_a write_failed) =
     \<lparr>ipc_writers = [(''/dev/a'', ipc_writer write_a ''/dev/a'')],
      ipc_results = [], exitCode = 1,
      emitted = [Log ''Image: image.img'', Log ''Devices: /dev/a'',
        Log ''Umount on success: true'', Log ''Validate on success: true'',
        Log ''write failed'', ErrorMessage (TypeError ''device'')],
      exited = Some 1\<rparr>"
    by (simp add: on_write_a dispatch_error toJSON_def GENERAL_ERROR_def write_failed_def)
  then show ?thesis
    by (simp add: worker_run_Cons worker_run_exited)
qed

text \<open>
  C2 evaluated on the worker: with the destinations \<^verbatim>\<open>/dev/a\<close> and \<^verbatim>\<open>/dev/b\<close>, the
  \<^verbatim>\<open>error\<close> of the writer of \<^verbatim>\<open>/dev/a\<close> terminates the worker. No entry is recorded for
  \<^verbatim>\<open>/dev/a\<close>, its writer stays in the map, the \<^verbatim>\<open>finish\<close> of \<^verbatim>\<open>/dev/b\<close> is never handled
  and no \<^verbatim>\<open>done\<close> is emitted.
\<close>

theorem worker_error_not_isolated:
  "worker_run (on_write write_ab)
     [WriterError writer_a write_failed, WriterFinish writer_b result_b] =
     \<lparr>ipc_writers = [(''/dev/a'', ipc_writer write_ab ''/dev/a''), (''/dev/b'', ipc_writer write_ab ''/dev/b'')],
      ipc_results = [], exitCode = 1,
      emitted = [Log ''Image: image.img'', Log ''Devices: /dev/a, /dev/b'',
        Log ''Umount on success: true'', Log ''Validate on success: true'',
        Log ''write failed'', ErrorMessage (TypeError ''device'')],
      exited = Some 1\<rparr>"
  by (simp add: worker_run_def on_write_ab worker_step_def onError_throws handleError_def
      terminate_def emit_def toJSON_def GENERAL_ERROR_def write_failed_def)

subsection \<open>The payload of the state event\<close>

text \<open>
  C4, as stated, fails: after the progress of \<^verbatim>\<open>/dev/a\<close> at 20 percent the progress of
  \<^verbatim>\<open>/dev/b\<close> at 80 percent is emitted as it is, while the aggregated snapshot of the two
  states has 50 percent.
\<close>

theorem state_event_counterexample:
  "emitted (worker_run (on_write write_ab)
     [WriterProgress writer_a state_a, WriterProgress writer_b state_b]) =
     [Log ''Image: image.img'', Log ''Devices: /dev/a, /dev/b'',
      Log ''Umount on success: true'', Log ''Validate on success: true'',
      State state_a, State state_b] \<and>
   percentage state_b = 80 \<and>
   percentage (reference_snapshot [(''/dev/a'', state_a), (''/dev/b'', state_b)]) = Num 50"
  by (simp add: worker_run_def on_write_ab worker_step_def ipc_onProgress_def emit_def
      reference_snapshot_def mean_def state_a_def state_b_def)

text \<open>
  C4, amended. While the worker has not terminated, a writer's progress event makes it
  emit one \<^verbatim>\<open>state\<close> event whose payload is the progress state of the emitting writer,
  unchanged; nothing else changes.
\<close>

theorem state_event_is_own_snapshot:
  assumes "exited s = None"
  shows "worker_step s (WriterProgress w state) = s\<lparr>emitted := emitted s @ [State state]\<rparr>"
  using assms by (simp add: worker_step_def ipc_onProgress_def emit_def)

theorem state_event_is_own_snapshot_witness:
  "exited (on_write write_ab) = None \<and>
   emitted (worker_step (on_write write_ab) (WriterProgress writer_b state_b)) =
     [Log ''Image: image.img'', Log ''Devices: /dev/a, /dev/b'',
      Log ''Umount on success: true'', Log ''Validate on success: true'', State state_b]"
proof -
  have h: "exited (on_write write_ab) = None"
    by (simp add: on_write_ab)
  show ?thesis
    using h state_event_is_own_snapshot [OF h, of writer_b state_b]
    by (simp add: on_write_ab)
qed

section \<open>A terminal event delivered twice\<close>

text \<open>
  C7, as stated, fails: with the single destination \<^verbatim>\<open>/dev/a\<close>, a second \<^verbatim>\<open>finish\<close> of
  its writer makes the command line tool push a second entry for the device and call
  \<^verbatim>\<open>resolve\<close> a second time, with the results array that now has two entries where it had
  one at the first call. In the worker a second \<^verbatim>\<open>finish\<close> of \<^verbatim>\<open>/dev/b\<close>, while \<^verbatim>\<open>/dev/a\<close>
  is still being written, records the result of \<^verbatim>\<open>/dev/b\<close> twice.
\<close>

theorem repeated_terminal_counterexample:
  "map result_device (results (run (start example_options [''/dev/a''])
       [Finish writer_a info_a, Finish writer_a info_a])) = [''/dev/a'', ''/dev/a''] \<and>
   resolve_calls (run (start example_options [''/dev/a''])
       [Finish writer_a info_a, Finish writer_a info_a]) = 2 \<and>
   map result_device (results (run (start example_options [''/dev/a''])
       [Finish writer_a info_a])) = [''/dev/a''] \<and>
   resolved (run (start example_options [''/dev/a'']) [Finish writer_a info_a]) \<and>
   ipc_results (worker_run (on_write write_ab)
       [WriterFinish writer_b result_b, WriterFinish writer_b result_b]) =
     [result_b, result_b]"
proof -
  have "ipc_results (worker_run (on_write write_ab)
       [WriterFinish writer_b result_b, WriterFinish writer_b result_b]) =
     [result_b, result_b]"
    by (simp add: worker_run_def on_write_ab worker_step_def ipc_onFinish_def Let_def log_def
        emit_def result_b_def)
  then show ?thesis
    by (simp add: run_def onFinish_def Let_def resolve_def start_def writer_a_def
        new_writer_def)
qed

lemma worker_repeated_finish:
  assumes "exited t = None" and "drive_device r \<notin> keys (ipc_writers t)"
    and "ipc_writers t \<noteq> []"
  shows "worker_step t (WriterFinish v r) =
           t\<lparr>ipc_results := ipc_results t @ [r],
             emitted := emitted t @ [Log (''Finish: '' @ drive_device r)]\<rparr>"
  using assms
  by (simp add: worker_step_def ipc_onFinish_def Let_def log_def emit_def delete_absent)

lemma cli_repeated_terminal:
  assumes "path (options w) \<notin> keys (writers s)" and "path (options w) \<notin> keys (states s)"
  shows "onFinish w f s =
           (if writers s = [] then resolve else id)
             (s\<lparr>results := results s @
                 [\<lparr>result_device = path (options w), error = None, flash = Some f\<rparr>]\<rparr>) \<and>
         onError w e s =
           (if writers s = [] then resolve else id)
             (s\<lparr>results := results s @
                 [\<lparr>result_device = path (options w), error = Some e, flash = None\<rparr>]\<rparr>)"
proof (cases "writers s = []")
  case True
  have eq: "s\<lparr>results := rs, writers := []\<rparr> = s\<lparr>results := rs\<rparr>" for rs
    using True by (cases s) simp
  show ?thesis
    using assms True by (simp add: onFinish_def onError_def Let_def delete_absent eq)
next
  case False
  then show ?thesis
    using assms by (simp add: onFinish_def onError_def Let_def delete_absent)
qed

text \<open>
  C7, amended. In the command line tool, a terminal event for a device that is in
  neither map any more appends one more entry for the device to the results and changes
  nothing else, except that, when no writer is left, it calls \<^verbatim>\<open>resolve\<close> once more, which
  leaves a settled promise settled. In the worker, as long as it has not terminated and
  other writers are left, a \<^verbatim>\<open>finish\<close> for a device that is no longer in the map logs the
  event and appends the result once more, and changes nothing else.
\<close>

theorem repeated_terminal_event:
  assumes "path (options w) \<notin> keys (writers s)" and "path (options w) \<notin> keys (states s)"
    and "exited t = None" and "drive_device r \<notin> keys (ipc_writers t)"
    and "ipc_writers t \<noteq> []"
  shows "onFinish w f s =
           (if writers s = [] then resolve else id)
             (s\<lparr>results := results s @
                 [\<lparr>result_device = path (options w), error = None, flash = Some f\<rparr>]\<rparr>) \<and>
         onError w e s =
           (if writers s = [] then resolve else id)
             (s\<lparr>results := results s @
                 [\<lparr>result_device = path (options w), error = Some e, flash = None\<rparr>]\<rparr>) \<and>
         worker_step t (WriterFinish v r) =
           t\<lparr>ipc_results := ipc_results t @ [r],
             emitted := emitted t @ [Log (''Finish: '' @ drive_device r)]\<rparr>"
  using cli_repeated_terminal [OF assms(1,2)] worker_repeated_finish [OF assms(3,4,5)]
  by simp

theorem repeated_terminal_event_witness:
  "path (options writer_a) \<notin> keys (writers (run (start example_options [''/dev/a'', ''/dev/b''])
      [Finish writer_a info_a])) \<and>
   path (options writer_a) \<notin> keys (states (run (start example_options [''/dev/a'', ''/dev/b''])
      [Finish writer_a info_a])) \<and>
   map result_device (results (onFinish writer_a info_a
      (run (start example_options [''/dev/a'', ''/dev/b'']) [Finish writer_a info_a]))) =
     [''/dev/a'', ''/dev/a''] \<and>
   exited (worker_run (on_write write_ab) [WriterFinish writer_b result_b]) = None \<and>
   ipc_results (worker_step (worker_run (on_write write_ab) [WriterFinish writer_b result_b])
      (WriterFinish writer_b result_b)) = [result_b, result_b]"
proof -
  let ?s = "run (start example_options [''/dev/a'', ''/dev/b'']) [Finish writer_a info_a]"
  let ?t = "worker_run (on_write write_ab) [WriterFinish writer_b result_b]"
  have s: "?s = \<lparr>results = [\<lparr>result_device = ''/dev/a'', error = None, flash = Some info_a\<rparr>],
      writers = [(''/dev/b'', writer_b)], states = [],
      progress = \<lparr>type = ''write'', delta = Num 0, transferred = Num 0, percentage = Num 0,
        remaining = Num 0, runtime = Num 0, speed = Num 0, eta = Num 0\<rparr>,
      resolved = False, resolve_calls = 0, bar_updates = []\<rparr>"
    by (simp add: run_def onFinish_def Let_def start_def writer_a_def writer_b_def
        new_writer_def)
  have t: "?t = \<lparr>ipc_writers = [(''/dev/a'', ipc_writer write_ab ''/dev/a'')],
      ipc_results = [result_b], exitCode = 0,
      emitted = [Log ''Image: image.img'', Log ''Devices: /dev/a, /dev/b'',
        Log ''Umount on success: true'', Log ''Validate on success: true'',
        Log ''Finish: /dev/b''],
      exited = None\<rparr>"
    by (simp add: worker_run_def on_write_ab worker_step_def ipc_onFinish_def Let_def log_def
        emit_def result_b_def)
  have p: "path (options writer_a) = ''/dev/a''"
    by (simp add: writer_a_def new_writer_def)
  have h1: "path (options writer_a) \<notin> keys (writers ?s)"
    unfolding s p by (simp add: keys_def)
  have h2: "path (options writer_a) \<notin> keys (states ?s)"
    unfolding s p by (simp add: keys_def)
  have h3: "exited ?t = None"
    by (simp add: t)
  have h4: "drive_device result_b \<notin> keys (ipc_writers ?t)"
    unfolding t by (simp add: keys_def result_b_def)
  have h5: "ipc_writers ?t \<noteq> []"
    by (simp add: t)
  show ?thesis
    using h1 h2 h3 repeated_terminal_event [OF h1 h2 h3 h4 h5, of info_a write_failed writer_b]
    by (simp add: s p t)
qed

end
